theory Spec2Isabelle
  imports Main "HOL-Library.Sublist"
begin

section \<open>Strings\<close>

text \<open>
  A JavaScript string is modelled as a \<open>string\<close>: one \<open>char\<close> per code unit, for the
  code units below 256 (the only ones the literals of the program use). The functions
  below are the library calls of \<open>App.tsx\<close>, restricted to the arguments it passes.
  The phone functions look at a code unit only to ask whether it is one of the ten
  digits, so a code unit from 256 on behaves in them like any other non-digit.
\<close>

definition isDigit :: "char \<Rightarrow> bool" where
  \<comment> \<open>what the regular expression \<open>\d\<close> matches: the ten ASCII digits\<close>
  "isDigit c = (c \<in> set ''0123456789'')"

definition stripNonDigits :: "string \<Rightarrow> string" where
  \<comment> \<open>\<open>value.replace(/\D/g, '')\<close>\<close>
  "stripNonDigits v = filter isDigit v"

definition slice :: "nat \<Rightarrow> nat \<Rightarrow> string \<Rightarrow> string" where
  \<comment> \<open>\<open>s.slice(a, b)\<close> for constants \<open>0 \<le> a \<le> b\<close>: both ends are clamped to the length\<close>
  "slice a b s = take (b - a) (drop a s)"

definition sliceFrom :: "nat \<Rightarrow> string \<Rightarrow> string" where
  \<comment> \<open>\<open>s.slice(a)\<close>\<close>
  "sliceFrom a s = drop a s"

definition startsWith :: "string \<Rightarrow> string \<Rightarrow> bool" where
  "startsWith s p = (take (length p) s = p)"

fun joinWith :: "string \<Rightarrow> string list \<Rightarrow> string" where
  "joinWith sep [] = []"
| "joinWith sep [x] = x"
| "joinWith sep (x # y # ys) = x @ sep @ joinWith sep (y # ys)"

fun splitComma :: "string \<Rightarrow> string list" where
  \<comment> \<open>\<open>s.split(',')\<close>: the empty string gives one empty piece\<close>
  "splitComma [] = [[]]"
| "splitComma (c # cs) =
     (if c = CHR '','' then [] # splitComma cs
      else (case splitComma cs of [] \<Rightarrow> [[c]] | w # ws \<Rightarrow> (c # w) # ws))"

definition isSpace :: "char \<Rightarrow> bool" where
  \<comment> \<open>the white space and line terminators \<open>trim\<close> removes, among the code units below 256:
      TAB, LF, VT, FF, CR, SPACE and NBSP\<close>
  "isSpace c = (c \<in> set [CHR 0x09, CHR 0x0A, CHR 0x0B, CHR 0x0C, CHR 0x0D, CHR 0x20, CHR 0xA0])"

definition trim :: "string \<Rightarrow> string" where
  "trim s = rev (dropWhile isSpace (rev (dropWhile isSpace s)))"

definition toLowerChar :: "char \<Rightarrow> char" where
  \<comment> \<open>\<open>toLowerCase\<close> on one code unit below 256: A-Z, and the capital letters of Latin-1\<close>
  "toLowerChar c =
     (let n = (of_char c :: nat)
      in if (65 \<le> n \<and> n \<le> 90) \<or> (192 \<le> n \<and> n \<le> 222 \<and> n \<noteq> 215)
         then char_of (n + 32) else c)"

definition toLowerCase :: "string \<Rightarrow> string" where
  "toLowerCase s = map toLowerChar s"

fun includesStr :: "string \<Rightarrow> string \<Rightarrow> bool" where
  \<comment> \<open>\<open>s.includes(t)\<close>: \<open>t\<close> occurs in \<open>s\<close> as a substring\<close>
  "includesStr [] t = (t = [])"
| "includesStr (c # cs) t = (take (length t) (c # cs) = t \<or> includesStr cs t)"

section \<open>Phone number formatting and validation\<close>

definition formatPhoneNumber :: "string \<Rightarrow> string" where
  "formatPhoneNumber v =
     (let numbers = stripNonDigits v
      in if length numbers \<le> 2 then numbers
         else if length numbers \<le> 5 then slice 0 2 numbers @ '' '' @ sliceFrom 2 numbers
         else if length numbers \<le> 8
           then slice 0 2 numbers @ '' '' @ slice 2 5 numbers @ '' '' @ sliceFrom 5 numbers
         else slice 0 2 numbers @ '' '' @ slice 2 5 numbers @ '' '' @ slice 5 9 numbers)"

definition validateUAEPhone :: "string \<Rightarrow> bool" where
  "validateUAEPhone p =
     (let numbers = stripNonDigits p
      in length numbers = 9 \<and> startsWith numbers ''05'')"

definition formatPhoneForDisplay :: "string \<Rightarrow> string" where
  "formatPhoneForDisplay p =
     (let numbers = stripNonDigits p
      in ''+971 '' @ slice 0 2 numbers @ '' '' @ slice 2 5 numbers @ '' '' @ slice 5 9 numbers)"

section \<open>The state of the component\<close>

datatype Screen = Landing | RegistrationForm | Verify | Success | AppleSignin

record profile =
  email :: string
  salutation :: string
  firstName :: string
  surname :: string
  phone :: string
  birthday :: string
  favoriteDesigners :: string

text \<open>
  One field per \<open>useState\<close> hook of \<open>App\<close>. The last two fields are not React state: they
  count the calls of \<open>handleVerify\<close> and \<open>handleEmailVerification\<close> that are suspended at
  their \<open>await\<close>, waiting for the simulated delay to end.
\<close>

record state =
  currentScreen :: Screen
  profile :: profile
  verificationCode :: "string list"
  isVerifying :: bool
  verificationError :: string
  countdown :: int
  canResend :: bool
  phoneError :: string
  showBrandSuggestions :: bool
  brandSuggestions :: "string list"
  isViaSocialAuth :: bool
  isEmailVerified :: bool
  pendingVerify :: nat
  pendingEmailVerification :: nat

definition LUXURY_BRANDS :: "string list" where
  "LUXURY_BRANDS =
     [''Louis Vuitton'', ''Chanel'', ''Gucci'', ''Herm'' @ [CHR 0xE8] @ ''s'', ''Dior'',
      ''Prada'', ''Burberry'', ''Versace'', ''Balenciaga'', ''Givenchy'']"

definition emptyProfile :: profile where
  "emptyProfile =
     \<lparr>email = [], salutation = [], firstName = [], surname = [], phone = [],
      birthday = [], favoriteDesigners = []\<rparr>"

definition initialState :: state where
  "initialState =
     \<lparr>currentScreen = Landing, profile = emptyProfile,
      verificationCode = [[], [], [], [], [], []],
      isVerifying = False, verificationError = [], countdown = 60, canResend = False,
      phoneError = [], showBrandSuggestions = False, brandSuggestions = [],
      isViaSocialAuth = False, isEmailVerified = False,
      pendingVerify = 0, pendingEmailVerification = 0\<rparr>"

section \<open>The handlers\<close>

subsection \<open>The countdown effect\<close>

text \<open>
  The effect installs an interval only when the screen is \<open>verify\<close> and the countdown is
  positive, and removes it whenever either changes. \<open>tickUpdater\<close> is the callback of
  the interval; \<open>tick\<close> is one second passing.
\<close>

definition timerActive :: "state \<Rightarrow> bool" where
  "timerActive s = (currentScreen s = Verify \<and> countdown s > 0)"

definition tickUpdater :: "state \<Rightarrow> state" where
  "tickUpdater s =
     (if countdown s \<le> 1 then s\<lparr>canResend := True, countdown := 0\<rparr>
      else s\<lparr>countdown := countdown s - 1\<rparr>)"

definition tick :: "state \<Rightarrow> state" where
  "tick s = (if timerActive s then tickUpdater s else s)"

subsection \<open>The one-time code\<close>

definition setSlot :: "nat \<Rightarrow> string \<Rightarrow> string list \<Rightarrow> string list" where
  \<comment> \<open>\<open>newCode[index] = value\<close> on a copy: an index past the end extends the array, and the
      holes it leaves join as empty strings\<close>
  "setSlot i v code =
     (if i < length code then code[i := v]
      else code @ replicate (i - length code) [] @ [v])"

definition handleOTPChange :: "nat \<Rightarrow> string \<Rightarrow> state \<Rightarrow> state" where
  \<comment> \<open>the move of the input focus is an effect on the page, not on the state\<close>
  "handleOTPChange index v s =
     (let v' = (if length v > 1 then take 1 v else v)
      in s\<lparr>verificationCode := setSlot index v' (verificationCode s),
            verificationError := []\<rparr>)"

definition handleVerify :: "state \<Rightarrow> state" where
  \<comment> \<open>up to the \<open>await\<close>\<close>
  "handleVerify s =
     (let code = joinWith [] (verificationCode s)
      in if length code \<noteq> 6
         then s\<lparr>verificationError := ''Please enter a valid 6-digit code''\<rparr>
         else s\<lparr>isVerifying := True, pendingVerify := pendingVerify s + 1\<rparr>)"

definition handleVerifyResume :: "state \<Rightarrow> state" where
  \<comment> \<open>after the \<open>await\<close>, whose promise always resolves: the \<open>try\<close> block ends, then
      \<open>finally\<close>; the \<open>catch\<close> block is never entered\<close>
  "handleVerifyResume s =
     s\<lparr>currentScreen := Success, isVerifying := False, pendingVerify := pendingVerify s - 1\<rparr>"

definition handleResendCode :: "state \<Rightarrow> state" where
  \<comment> \<open>nothing follows the \<open>await\<close>\<close>
  "handleResendCode s = s\<lparr>canResend := False, countdown := 60\<rparr>"

subsection \<open>The registration form\<close>

definition handleVerification :: "state \<Rightarrow> state" where
  \<comment> \<open>an empty string is falsy; the two \<open>alert\<close>s do not touch the state\<close>
  "handleVerification s =
     (if salutation (profile s) = [] \<or> firstName (profile s) = [] \<or>
         surname (profile s) = [] \<or> phone (profile s) = [] then s
      else if \<not> validateUAEPhone (phone (profile s)) then s
      else s\<lparr>currentScreen := Verify\<rparr>)"

definition setField :: "string \<Rightarrow> string \<Rightarrow> profile \<Rightarrow> profile" where
  \<comment> \<open>\<open>{...prev, [field]: value}\<close>; a key that is no field of the profile would add a
      property nothing reads\<close>
  "setField field v p =
     (if field = ''email'' then p\<lparr>email := v\<rparr>
      else if field = ''salutation'' then p\<lparr>salutation := v\<rparr>
      else if field = ''firstName'' then p\<lparr>firstName := v\<rparr>
      else if field = ''surname'' then p\<lparr>surname := v\<rparr>
      else if field = ''phone'' then p\<lparr>phone := v\<rparr>
      else if field = ''birthday'' then p\<lparr>birthday := v\<rparr>
      else if field = ''favoriteDesigners'' then p\<lparr>favoriteDesigners := v\<rparr>
      else p)"

definition handleProfileChange :: "string \<Rightarrow> string \<Rightarrow> state \<Rightarrow> state" where
  "handleProfileChange field v s = s\<lparr>profile := setField field v (profile s)\<rparr>"

definition handlePhoneChange :: "string \<Rightarrow> state \<Rightarrow> state" where
  "handlePhoneChange raw s =
     (let formattedPhone = formatPhoneNumber raw;
          s1 = s\<lparr>profile := (profile s)\<lparr>phone := formattedPhone\<rparr>\<rparr>
      in if formattedPhone = [] then s1\<lparr>phoneError := []\<rparr>
         else if \<not> validateUAEPhone formattedPhone
           then s1\<lparr>phoneError := ''Please enter a valid UAE mobile number (05X XXX XXXX)''\<rparr>
         else s1\<lparr>phoneError := []\<rparr>)"

definition useDifferentMethod :: "state \<Rightarrow> state" where
  \<comment> \<open>the \<open>onClick\<close> of the button "Use a different registration method"\<close>
  "useDifferentMethod s =
     s\<lparr>profile := emptyProfile, isViaSocialAuth := False, currentScreen := Landing\<rparr>"

definition continueWithEmail :: "state \<Rightarrow> state" where
  \<comment> \<open>the \<open>onClick\<close> of the button "Continue" of the landing screen\<close>
  "continueWithEmail s =
     (if email (profile s) \<noteq> [] then s\<lparr>currentScreen := RegistrationForm\<rparr> else s)"

subsection \<open>Email verification and social sign-in\<close>

definition handleEmailVerification :: "state \<Rightarrow> state" where
  \<comment> \<open>up to the \<open>await\<close>\<close>
  "handleEmailVerification s = s\<lparr>pendingEmailVerification := pendingEmailVerification s + 1\<rparr>"

definition handleEmailVerificationResume :: "state \<Rightarrow> state" where
  "handleEmailVerificationResume s =
     s\<lparr>isEmailVerified := True, pendingEmailVerification := pendingEmailVerification s - 1\<rparr>"

datatype provider = Apple | Google

text \<open>
  The repository holds two versions of the component. \<open>handleSocialAuth\<close> is the handler
  of the version with the \<open>apple_signin\<close> screen, \<open>handleSocialAuth_App\<close> the one of
  \<open>src/App.tsx\<close>. Neither reads its argument, and nothing in the \<open>try\<close> block throws.
\<close>

definition handleSocialAuth :: "provider \<Rightarrow> state \<Rightarrow> state" where
  "handleSocialAuth p s =
     s\<lparr>profile := (profile s)\<lparr>email := ''user@example.com'', firstName := ''John'',
                                surname := ''Doe'', salutation := [], phone := [],
                                birthday := [], favoriteDesigners := []\<rparr>,
       isEmailVerified := True, isViaSocialAuth := True, currentScreen := Success\<rparr>"

definition handleSocialAuth_App :: "provider \<Rightarrow> state \<Rightarrow> state" where
  "handleSocialAuth_App p s =
     s\<lparr>profile := (profile s)\<lparr>email := ''johndoe@icloud.com'', firstName := ''John'',
                                surname := ''Doe''\<rparr>,
       isEmailVerified := True, isViaSocialAuth := True, currentScreen := RegistrationForm\<rparr>"

subsection \<open>Favourite designers\<close>

definition getSelectedBrands :: "state \<Rightarrow> string list" where
  "getSelectedBrands s =
     (if favoriteDesigners (profile s) \<noteq> []
      then map trim (splitComma (favoriteDesigners (profile s))) else [])"

definition selectBrand :: "string \<Rightarrow> state \<Rightarrow> state" where
  \<comment> \<open>clearing the text of the input is an effect on the page, not on the state\<close>
  "selectBrand brand s =
     (let currentBrands = getSelectedBrands s;
          s1 = (if brand \<notin> set currentBrands
                then handleProfileChange ''favoriteDesigners''
                       (joinWith '', '' (currentBrands @ [brand])) s
                else s)
      in s1\<lparr>showBrandSuggestions := False\<rparr>)"

definition removeBrand :: "string \<Rightarrow> state \<Rightarrow> state" where
  "removeBrand brandToRemove s =
     handleProfileChange ''favoriteDesigners''
       (joinWith '', '' (filter (\<lambda>brand. brand \<noteq> brandToRemove) (getSelectedBrands s))) s"

definition handleDesignerInput :: "string \<Rightarrow> state \<Rightarrow> state" where
  \<comment> \<open>\<open>getSelectedBrands\<close> reads the profile of the current render, before the change\<close>
  "handleDesignerInput v s =
     (let s1 = handleProfileChange ''favoriteDesigners'' v s
      in if length v > 0
         then (let suggestions =
                     filter (\<lambda>brand. includesStr (toLowerCase brand) (toLowerCase v) \<and>
                                      brand \<notin> set (getSelectedBrands s)) LUXURY_BRANDS
               in s1\<lparr>brandSuggestions := suggestions,
                      showBrandSuggestions := (length suggestions > 0)\<rparr>)
         else s1\<lparr>showBrandSuggestions := False\<rparr>)"

definition designerFocus :: "state \<Rightarrow> state" where
  \<comment> \<open>the \<open>onFocus\<close> of the designer input\<close>
  "designerFocus s =
     (let suggestions = filter (\<lambda>brand. brand \<notin> set (getSelectedBrands s)) LUXURY_BRANDS
      in s\<lparr>brandSuggestions := suggestions, showBrandSuggestions := (length suggestions > 0)\<rparr>)"

section \<open>The screens as a transition system\<close>

text \<open>
  \<open>PartA\<close> is the version of the component with the \<open>apple_signin\<close> screen and an editable
  profile on the \<open>success\<close> screen; \<open>AppTsx\<close> is \<open>src/App.tsx\<close>, which asks for the birthday
  and the designers on the registration form. An action is one event the page can
  deliver; \<open>enabled\<close> says whether the screen being shown has the control, and \<open>perform\<close>
  runs its handler. \<open>VerifyDone\<close> and \<open>EmailVerificationDone\<close> are the ends of the
  simulated delays, which can come on any screen. A text input can deliver any string;
  the salutation is one of three radio buttons. Submitting the profile form of the
  \<open>success\<close> screen of \<open>PartA\<close> loads the page again, which is \<open>initialState\<close>, and is
  left out.
\<close>

datatype variant = PartA | AppTsx

datatype action =
    ContinueWithApple
  | ContinueWithGoogle
  | EmailInput string
  | ContinueWithEmail
  | RetryEmailVerification
  | EmailVerificationDone
  | SalutationInput string
  | FirstNameInput string
  | SurnameInput string
  | PhoneInput string
  | BirthdayInput string
  | DesignerInput string
  | DesignerFocus
  | ClickOutside
  | SelectBrand string
  | RemoveBrand string
  | Continue
  | UseDifferentMethod
  | CloseVerify
  | EditPhone
  | OTPInput nat string
  | VerifyCode
  | VerifyDone
  | ResendCode
  | Tick
  | CloseApple
  | ContinueWithPassword

fun enabled :: "variant \<Rightarrow> action \<Rightarrow> state \<Rightarrow> bool" where
  "enabled v ContinueWithApple s = (currentScreen s = Landing)"
| "enabled v ContinueWithGoogle s = (currentScreen s = Landing)"
| "enabled v (EmailInput x) s = (currentScreen s = Landing)"
| "enabled v ContinueWithEmail s = (currentScreen s = Landing)"
| "enabled v RetryEmailVerification s =
     ((currentScreen s = Success \<or> (v = PartA \<and> currentScreen s = RegistrationForm)) \<and>
      \<not> isEmailVerified s \<and> \<not> isViaSocialAuth s)"
| "enabled v EmailVerificationDone s = (pendingEmailVerification s > 0)"
| "enabled v (SalutationInput x) s =
     (x \<in> set [''Mr'', ''Mrs'', ''Miss''] \<and>
      (currentScreen s = RegistrationForm \<or> (v = PartA \<and> currentScreen s = Success)))"
| "enabled v (FirstNameInput x) s =
     ((currentScreen s = RegistrationForm \<and> \<not> isViaSocialAuth s) \<or>
      (v = PartA \<and> currentScreen s = Success))"
| "enabled v (SurnameInput x) s =
     ((currentScreen s = RegistrationForm \<and> \<not> isViaSocialAuth s) \<or>
      (v = PartA \<and> currentScreen s = Success))"
| "enabled v (PhoneInput x) s =
     (currentScreen s = RegistrationForm \<or> (v = PartA \<and> currentScreen s = Success))"
| "enabled v (BirthdayInput x) s =
     ((v = AppTsx \<and> currentScreen s = RegistrationForm) \<or>
      (v = PartA \<and> currentScreen s = Success))"
| "enabled v (DesignerInput x) s = (v = AppTsx \<and> currentScreen s = RegistrationForm)"
| "enabled v DesignerFocus s = (v = AppTsx \<and> currentScreen s = RegistrationForm)"
| "enabled v ClickOutside s = (v = AppTsx \<and> currentScreen s = RegistrationForm)"
| "enabled v (SelectBrand b) s =
     (v = AppTsx \<and> currentScreen s = RegistrationForm \<and> showBrandSuggestions s \<and>
      b \<in> set (brandSuggestions s))"
| "enabled v (RemoveBrand b) s =
     (v = AppTsx \<and> currentScreen s = RegistrationForm \<and> b \<in> set (getSelectedBrands s))"
| "enabled v Continue s = (currentScreen s = RegistrationForm)"
| "enabled v UseDifferentMethod s = (currentScreen s = RegistrationForm)"
| "enabled v CloseVerify s = (currentScreen s = Verify)"
| "enabled v EditPhone s = (currentScreen s = Verify)"
| "enabled v (OTPInput i x) s = (currentScreen s = Verify \<and> i < length (verificationCode s))"
| "enabled v VerifyCode s = (currentScreen s = Verify \<and> \<not> isVerifying s)"
| "enabled v VerifyDone s = (pendingVerify s > 0)"
| "enabled v ResendCode s = (currentScreen s = Verify \<and> \<not> countdown s > 0)"
| "enabled v Tick s = timerActive s"
| "enabled v CloseApple s = (v = PartA \<and> currentScreen s = AppleSignin)"
| "enabled v ContinueWithPassword s = (v = PartA \<and> currentScreen s = AppleSignin)"

fun perform :: "variant \<Rightarrow> action \<Rightarrow> state \<Rightarrow> state" where
  "perform PartA ContinueWithApple s = s\<lparr>currentScreen := AppleSignin\<rparr>"
| "perform AppTsx ContinueWithApple s = handleSocialAuth_App Apple s"
| "perform PartA ContinueWithGoogle s = handleSocialAuth Google s"
| "perform AppTsx ContinueWithGoogle s = handleSocialAuth_App Google s"
| "perform v (EmailInput x) s = handleProfileChange ''email'' x s"
| "perform v ContinueWithEmail s = continueWithEmail s"
| "perform v RetryEmailVerification s = handleEmailVerification s"
| "perform v EmailVerificationDone s = handleEmailVerificationResume s"
| "perform v (SalutationInput x) s = handleProfileChange ''salutation'' x s"
| "perform v (FirstNameInput x) s = handleProfileChange ''firstName'' x s"
| "perform v (SurnameInput x) s = handleProfileChange ''surname'' x s"
| "perform v (PhoneInput x) s = handlePhoneChange x s"
| "perform v (BirthdayInput x) s = handleProfileChange ''birthday'' x s"
| "perform v (DesignerInput x) s = handleDesignerInput x s"
| "perform v DesignerFocus s = designerFocus s"
| "perform v ClickOutside s = s\<lparr>showBrandSuggestions := False\<rparr>"
| "perform v (SelectBrand b) s = selectBrand b s"
| "perform v (RemoveBrand b) s = removeBrand b s"
| "perform v Continue s = handleVerification s"
| "perform v UseDifferentMethod s = useDifferentMethod s"
| "perform v CloseVerify s = s\<lparr>currentScreen := RegistrationForm\<rparr>"
| "perform v EditPhone s = s\<lparr>currentScreen := RegistrationForm\<rparr>"
| "perform v (OTPInput i x) s = handleOTPChange i x s"
| "perform v VerifyCode s = handleVerify s"
| "perform v VerifyDone s = handleVerifyResume s"
| "perform v ResendCode s = handleResendCode s"
| "perform v Tick s = tickUpdater s"
| "perform v CloseApple s = s\<lparr>currentScreen := Landing\<rparr>"
| "perform v ContinueWithPassword s = handleSocialAuth Apple s"

fun run :: "variant \<Rightarrow> action list \<Rightarrow> state \<Rightarrow> state option" where
  "run v [] s = Some s"
| "run v (a # as) s = (if enabled v a s then run v as (perform v a s) else None)"

inductive reachable :: "variant \<Rightarrow> state \<Rightarrow> bool" for v :: variant where
  start: "reachable v initialState"
| step: "reachable v s \<Longrightarrow> enabled v a s \<Longrightarrow> reachable v (perform v a s)"

text \<open>
  \<open>runOffVerify\<close> is \<open>run\<close> for the runs in which no action is taken on the \<open>verify\<close>
  screen: such a run ends at the latest with the action that enters \<open>verify\<close>. From
  \<open>initialState\<close> these are the runs up to the first visit of \<open>verify\<close>; from a state
  in which \<open>verify\<close> was just left, the runs up to the next visit.
\<close>

fun runOffVerify :: "variant \<Rightarrow> action list \<Rightarrow> state \<Rightarrow> state option" where
  "runOffVerify v [] s = Some s"
| "runOffVerify v (a # as) s =
     (if currentScreen s \<noteq> Verify \<and> enabled v a s then runOffVerify v as (perform v a s)
      else None)"

section \<open>Predicates on states\<close>

definition canContinue :: "state \<Rightarrow> bool" where
  \<comment> \<open>the two guards of \<open>handleVerification\<close> pass\<close>
  "canContinue s =
     (salutation (profile s) \<noteq> '''' \<and> firstName (profile s) \<noteq> '''' \<and>
      surname (profile s) \<noteq> '''' \<and> phone (profile s) \<noteq> '''' \<and>
      validateUAEPhone (phone (profile s)))"

definition countdownInv :: "state \<Rightarrow> bool" where
  "countdownInv s =
     (0 \<le> countdown s \<and> countdown s \<le> 60 \<and> (canResend s = (countdown s = 0)))"

definition errorInv :: "state \<Rightarrow> bool" where
  \<comment> \<open>a displayed error means an incomplete code\<close>
  "errorInv s =
     (verificationError s = '''' \<or> length (joinWith '''' (verificationCode s)) \<noteq> 6)"

section \<open>Example runs\<close>

definition fillForm :: "action list" where
  "fillForm =
     [EmailInput ''a@b.com'', ContinueWithEmail, SalutationInput ''Mr'', FirstNameInput ''A'',
      SurnameInput ''B'', PhoneInput ''052223344'']"

definition formFilled :: state where
  "formFilled =
     initialState\<lparr>currentScreen := RegistrationForm,
       profile := emptyProfile\<lparr>email := ''a@b.com'', salutation := ''Mr'', firstName := ''A'',
                                surname := ''B'', phone := ''05 222 3344''\<rparr>\<rparr>"

definition verifyEntered :: state where
  "verifyEntered = formFilled\<lparr>currentScreen := Verify\<rparr>"

definition countedDown :: state where
  "countedDown = verifyEntered\<lparr>canResend := True, countdown := 0\<rparr>"

definition typeCode :: "action list" where
  "typeCode =
     [OTPInput 0 ''1'', OTPInput 1 ''2'', OTPInput 2 ''3'', OTPInput 3 ''4'', OTPInput 4 ''5'',
      OTPInput 5 ''6'']"

definition codeEntered :: state where
  "codeEntered = verifyEntered\<lparr>verificationCode := [''1'', ''2'', ''3'', ''4'', ''5'', ''6'']\<rparr>"

definition revisitVerify :: "action list" where
  \<comment> \<open>enter \<open>verify\<close>, type a digit, let a second pass, go back to the form, continue again\<close>
  "revisitVerify = fillForm @ [Continue, OTPInput 0 ''1'', Tick, EditPhone, Continue]"

definition brandsChosen :: state where
  "brandsChosen =
     formFilled\<lparr>profile := (profile formFilled)\<lparr>favoriteDesigners := ''Gucci, Prada''\<rparr>\<rparr>"

section \<open>Lemmas on the string functions\<close>

lemma filter_digits_id: "set n \<subseteq> set (filter isDigit v) \<Longrightarrow> filter isDigit n = n"
  by (rule filter_True) auto

lemma filter_take_digits: "filter isDigit (take k (filter isDigit v)) = take k (filter isDigit v)"
  by (rule filter_digits_id) (rule set_take_subset)

lemma filter_drop_digits: "filter isDigit (drop k (filter isDigit v)) = drop k (filter isDigit v)"
  by (rule filter_digits_id) (rule set_drop_subset)

lemma filter_slice_digits:
  "filter isDigit (take j (drop k (filter isDigit v))) = take j (drop k (filter isDigit v))"
proof (rule filter_digits_id)
  have "set (take j (drop k (filter isDigit v))) \<subseteq> set (drop k (filter isDigit v))"
    by (rule set_take_subset)
  also have "\<dots> \<subseteq> set (filter isDigit v)"
    by (rule set_drop_subset)
  finally show "set (take j (drop k (filter isDigit v))) \<subseteq> set (filter isDigit v)" .
qed

lemma space_not_digit: "\<not> isDigit CHR '' ''"
  by (simp add: isDigit_def)

lemma take_2_3_4: "take 2 n @ take 3 (drop 2 n) @ take 4 (drop 5 n) = take 9 n"
proof -
  have "take 9 n = take (2 + (3 + 4)) n" by simp
  also have "\<dots> = take 2 n @ take (3 + 4) (drop 2 n)" by (rule take_add)
  also have "take (3 + 4) (drop 2 n) = take 3 (drop 2 n) @ take 4 (drop 3 (drop 2 n))"
    by (rule take_add)
  finally show ?thesis by simp
qed

lemma take_2_3_rest: "take 2 n @ take 3 (drop 2 n) @ drop 5 n = n"
proof -
  have "take 3 (drop 2 n) @ drop 3 (drop 2 n) = drop 2 n" by (rule append_take_drop_id)
  then have "take 3 (drop 2 n) @ drop 5 n = drop 2 n" by simp
  then show ?thesis by simp
qed

lemma digits_formatPhoneNumber:
  "stripNonDigits (formatPhoneNumber v) = take 9 (stripNonDigits v)"
proof -
  let ?n = "filter isDigit v"
  consider "length ?n \<le> 2" | "2 < length ?n" "length ?n \<le> 5"
    | "5 < length ?n" "length ?n \<le> 8" | "8 < length ?n" by linarith
  then show ?thesis
  proof cases
    case 1
    then show ?thesis
      by (simp add: formatPhoneNumber_def stripNonDigits_def Let_def)
  next
    case 2
    then show ?thesis
      by (simp add: formatPhoneNumber_def stripNonDigits_def slice_def sliceFrom_def Let_def
          filter_take_digits filter_drop_digits space_not_digit)
  next
    case 3
    then show ?thesis
      by (simp add: formatPhoneNumber_def stripNonDigits_def slice_def sliceFrom_def Let_def
          filter_take_digits filter_drop_digits filter_slice_digits space_not_digit
          take_2_3_rest)
  next
    case 4
    then show ?thesis
      by (simp add: formatPhoneNumber_def stripNonDigits_def slice_def sliceFrom_def Let_def
          filter_take_digits filter_drop_digits filter_slice_digits space_not_digit take_2_3_4)
  qed
qed

lemma formatPhoneNumber_idem:
  "formatPhoneNumber (formatPhoneNumber v) = formatPhoneNumber v"
proof -
  let ?n = "filter isDigit v"
  have d: "filter isDigit (formatPhoneNumber v) = take 9 ?n"
    using digits_formatPhoneNumber [of v] by (simp add: stripNonDigits_def)
  have "formatPhoneNumber (formatPhoneNumber v) =
      (let numbers = take 9 ?n
       in if length numbers \<le> 2 then numbers
         else if length numbers \<le> 5 then slice 0 2 numbers @ '' '' @ sliceFrom 2 numbers
         else if length numbers \<le> 8
           then slice 0 2 numbers @ '' '' @ slice 2 5 numbers @ '' '' @ sliceFrom 5 numbers
         else slice 0 2 numbers @ '' '' @ slice 2 5 numbers @ '' '' @ slice 5 9 numbers)"
    unfolding formatPhoneNumber_def [of "formatPhoneNumber v"] stripNonDigits_def d ..
  also have "\<dots> = formatPhoneNumber v"
    by (auto simp add: formatPhoneNumber_def stripNonDigits_def slice_def sliceFrom_def Let_def
        min_def take_drop)
  finally show ?thesis .
qed

lemma startsWith_prefix: "startsWith s p = prefix p s"
proof
  assume "startsWith s p"
  then have "s = p @ drop (length p) s"
    unfolding startsWith_def by (metis append_take_drop_id)
  then show "prefix p s" by (rule prefixI)
next
  assume "prefix p s"
  then show "startsWith s p" by (auto simp add: startsWith_def prefix_def)
qed

lemma validateUAEPhone_iff:
  "validateUAEPhone p = (length (filter isDigit p) = 9 \<and> prefix ''05'' (filter isDigit p))"
  by (simp add: validateUAEPhone_def stripNonDigits_def Let_def startsWith_prefix)

section \<open>Phone formatting and validation: the claims\<close>

text \<open>
  Claim C2. For every input string, the digits of the formatted string are the digits of
  the input cut to the first nine, and formatting a formatted string changes nothing.
\<close>

theorem formatPhoneNumber_digits_and_idempotent:
  "filter isDigit (formatPhoneNumber s) = take 9 (filter isDigit s) \<and>
   formatPhoneNumber (formatPhoneNumber s) = formatPhoneNumber s"
  using digits_formatPhoneNumber [of s] formatPhoneNumber_idem [of s]
  by (simp add: stripNonDigits_def)

text \<open>
  Claim C3. \<open>validateUAEPhone\<close> holds exactly when the digit characters of its argument
  are nine and begin with 05; in particular it fails on the empty string.
\<close>

theorem validateUAEPhone_exactly_nine_digits_05:
  "validateUAEPhone p = (length (filter isDigit p) = 9 \<and> prefix ''05'' (filter isDigit p)) \<and>
   \<not> validateUAEPhone ''''"
  by (simp add: validateUAEPhone_def stripNonDigits_def Let_def startsWith_prefix)

text \<open>
  Claim C4. The formatter turns 052123456 into "05 212 3456", and the display format of
  "05 212 3456" is "+971 05 212 3456", the zero after the country code included.
\<close>

theorem format_052123456:
  "formatPhoneNumber ''052123456'' = ''05 212 3456'' \<and>
   formatPhoneForDisplay ''05 212 3456'' = ''+971 05 212 3456''"
  by (simp add: formatPhoneNumber_def formatPhoneForDisplay_def stripNonDigits_def isDigit_def
      slice_def sliceFrom_def)

text \<open>
  Claim C8. A phone edit stores the formatted string and sets the phone error from it at
  once: no error when the stored string is empty, the invalid-number message when it is
  not empty and its digits are not nine digits beginning with 05, no error otherwise.
\<close>

theorem handlePhoneChange_stores_and_validates:
  "phone (profile (handlePhoneChange raw s)) = formatPhoneNumber raw \<and>
   phoneError (handlePhoneChange raw s) =
     (if formatPhoneNumber raw = '''' then ''''
      else if length (filter isDigit (formatPhoneNumber raw)) = 9 \<and>
              prefix ''05'' (filter isDigit (formatPhoneNumber raw)) then ''''
      else ''Please enter a valid UAE mobile number (05X XXX XXXX)'')"
  by (simp add: handlePhoneChange_def Let_def validateUAEPhone_iff)

section \<open>Social sign-in and abandoning the registration: the claims\<close>

text \<open>
  Claim C5. The two versions of the social sign-in handler end on different screens: one
  on \<open>success\<close>, the one of \<open>src/App.tsx\<close> on \<open>registration_form\<close>, whatever the provider
  and the state they start from.
\<close>

theorem handleSocialAuth_variants_disagree:
  "currentScreen (handleSocialAuth p s) = Success \<and>
   currentScreen (handleSocialAuth_App p s) = RegistrationForm \<and>
   currentScreen (handleSocialAuth p s) \<noteq> currentScreen (handleSocialAuth_App p s)"
  by (simp add: handleSocialAuth_def handleSocialAuth_App_def)

text \<open>
  Claim C10. "Use a different registration method" empties every field of the profile
  and clears the social sign-in flag, and leaves the email-verified flag as it was: an
  email marked verified stays marked verified.
\<close>

theorem useDifferentMethod_keeps_isEmailVerified:
  "email (profile (useDifferentMethod s)) = '''' \<and>
   salutation (profile (useDifferentMethod s)) = '''' \<and>
   firstName (profile (useDifferentMethod s)) = '''' \<and>
   surname (profile (useDifferentMethod s)) = '''' \<and>
   phone (profile (useDifferentMethod s)) = '''' \<and>
   birthday (profile (useDifferentMethod s)) = '''' \<and>
   favoriteDesigners (profile (useDifferentMethod s)) = '''' \<and>
   isViaSocialAuth (useDifferentMethod s) = False \<and>
   isEmailVerified (useDifferentMethod s) = isEmailVerified s"
  by (simp add: useDifferentMethod_def emptyProfile_def)

text \<open>
  In \<open>src/App.tsx\<close> two clicks show it: "Continue with Google" marks the email verified
  and opens the registration form, and "Use a different registration method" returns to
  the landing screen with an empty profile and the email still marked verified.
\<close>

lemma google_then_different_method:
  "map_option currentScreen (run AppTsx [ContinueWithGoogle, UseDifferentMethod] initialState) =
     Some Landing \<and>
   map_option profile (run AppTsx [ContinueWithGoogle, UseDifferentMethod] initialState) =
     Some emptyProfile \<and>
   map_option isViaSocialAuth (run AppTsx [ContinueWithGoogle, UseDifferentMethod] initialState) =
     Some False \<and>
   map_option isEmailVerified (run AppTsx [ContinueWithGoogle, UseDifferentMethod] initialState) =
     Some True"
  by (simp add: initialState_def handleSocialAuth_App_def useDifferentMethod_def)

section \<open>Runs and invariants\<close>

lemmas handler_defs =
  handleSocialAuth_def handleSocialAuth_App_def
  handleProfileChange_def continueWithEmail_def handleEmailVerification_def
  handleEmailVerificationResume_def handlePhoneChange_def handleDesignerInput_def
  designerFocus_def selectBrand_def removeBrand_def handleVerification_def
  useDifferentMethod_def handleOTPChange_def handleVerify_def handleVerifyResume_def
  handleResendCode_def tickUpdater_def

lemma run_append:
  "run v (as @ bs) s = (case run v as s of None \<Rightarrow> None | Some t \<Rightarrow> run v bs t)"
  by (induction as arbitrary: s) simp_all

lemma run_reachable: "reachable v s \<Longrightarrow> run v as s = Some t \<Longrightarrow> reachable v t"
proof (induction as arbitrary: s)
  case Nil
  then show ?case by simp
next
  case (Cons a as)
  from Cons.prems(2) have en: "enabled v a s" and r: "run v as (perform v a s) = Some t"
    by (auto split: if_splits)
  from Cons.prems(1) en have "reachable v (perform v a s)" by (rule reachable.step)
  then show ?case using r by (rule Cons.IH)
qed

lemma runOffVerify_run: "runOffVerify v as s = Some t \<Longrightarrow> run v as s = Some t"
  by (induction as arbitrary: s) (auto split: if_splits)

subsection \<open>The countdown stays between 0 and 60, and resend is allowed exactly at 0\<close>

lemma countdownInv_initial: "countdownInv initialState"
  by (simp add: countdownInv_def initialState_def)

lemma countdownInv_perform: "countdownInv s \<Longrightarrow> countdownInv (perform v a s)"
  by (cases a; cases v) (auto simp add: countdownInv_def handler_defs Let_def)

lemma reachable_countdownInv: "reachable v s \<Longrightarrow> countdownInv s"
  by (induction rule: reachable.induct) (simp_all add: countdownInv_initial countdownInv_perform)

subsection \<open>An error is displayed only while the code is incomplete\<close>

lemma errorInv_initial: "errorInv initialState"
  by (simp add: errorInv_def initialState_def)

lemma errorInv_perform: "errorInv s \<Longrightarrow> errorInv (perform v a s)"
  by (cases a; cases v) (auto simp add: errorInv_def handler_defs Let_def)

lemma reachable_errorInv: "reachable v s \<Longrightarrow> errorInv s"
  by (induction rule: reachable.induct) (simp_all add: errorInv_initial errorInv_perform)

subsection \<open>Off the verify screen nothing touches the code, the countdown or the resend flag\<close>

lemma offVerify_perform:
  "currentScreen s \<noteq> Verify \<Longrightarrow> enabled v a s \<Longrightarrow>
   verificationCode (perform v a s) = verificationCode s \<and>
   countdown (perform v a s) = countdown s \<and>
   canResend (perform v a s) = canResend s"
  by (cases a; cases v) (auto simp add: handler_defs timerActive_def Let_def)

lemma runOffVerify_keeps:
  "runOffVerify v as s = Some t \<Longrightarrow>
   verificationCode t = verificationCode s \<and> countdown t = countdown s \<and>
   canResend t = canResend s"
proof (induction as arbitrary: s)
  case Nil
  then show ?case by simp
next
  case (Cons a as)
  from Cons.prems have off: "currentScreen s \<noteq> Verify" and en: "enabled v a s"
    and r: "runOffVerify v as (perform v a s) = Some t"
    by (auto split: if_splits)
  from Cons.IH [OF r] offVerify_perform [OF off en] show ?case by simp
qed

text \<open>One second passing is the action \<open>Tick\<close> when the interval is installed.\<close>

lemma tick_perform: "tick s = (if enabled v Tick s then perform v Tick s else s)"
  by (simp add: tick_def)

subsection \<open>The example runs\<close>

lemma run_fillForm: "runOffVerify v fillForm initialState = Some formFilled"
  by (cases v)
    (simp_all add: fillForm_def formFilled_def initialState_def emptyProfile_def
      handleProfileChange_def setField_def continueWithEmail_def handlePhoneChange_def
      formatPhoneNumber_def validateUAEPhone_def stripNonDigits_def isDigit_def slice_def
      sliceFrom_def startsWith_def Let_def)

lemma canContinue_formFilled: "canContinue formFilled"
  by (simp add: canContinue_def formFilled_def initialState_def emptyProfile_def
      validateUAEPhone_def stripNonDigits_def isDigit_def startsWith_def Let_def)

lemma run_enterVerify: "run v (fillForm @ [Continue]) initialState = Some verifyEntered"
proof -
  have "run v fillForm initialState = Some formFilled"
    using run_fillForm by (rule runOffVerify_run)
  moreover have "handleVerification formFilled = verifyEntered"
    using canContinue_formFilled
    by (simp add: handleVerification_def canContinue_def verifyEntered_def)
  moreover have "currentScreen formFilled = RegistrationForm"
    by (simp add: formFilled_def)
  ultimately show ?thesis by (simp add: run_append)
qed

text \<open>From a countdown of \<open>n\<close> seconds, \<open>n\<close> ticks reach 0 and allow the resend.\<close>

lemma run_ticks:
  "currentScreen s = Verify \<Longrightarrow> countdown s = int n \<Longrightarrow> 0 < n \<Longrightarrow>
   run v (replicate n Tick) s = Some (s\<lparr>canResend := True, countdown := 0\<rparr>)"
proof (induction n arbitrary: s)
  case 0
  then show ?case by simp
next
  case (Suc n)
  show ?case
  proof (cases "n = 0")
    case True
    with Suc.prems show ?thesis by (simp add: timerActive_def tickUpdater_def)
  next
    case False
    let ?s = "s\<lparr>countdown := int n\<rparr>"
    have "run v (replicate n Tick) ?s = Some (?s\<lparr>canResend := True, countdown := 0\<rparr>)"
      using Suc.prems False by (intro Suc.IH) simp_all
    with Suc.prems False show ?thesis by (simp add: timerActive_def tickUpdater_def)
  qed
qed

lemma run_countedDown: "run v (replicate 60 Tick) verifyEntered = Some countedDown"
proof -
  have "run v (replicate 60 Tick) verifyEntered =
      Some (verifyEntered\<lparr>canResend := True, countdown := 0\<rparr>)"
    by (rule run_ticks) (simp_all add: verifyEntered_def formFilled_def initialState_def)
  then show ?thesis by (simp add: countedDown_def)
qed

lemma run_typeCode: "run v typeCode verifyEntered = Some codeEntered"
  by (simp add: typeCode_def verifyEntered_def codeEntered_def formFilled_def initialState_def
      handleOTPChange_def setSlot_def)

lemma reachable_verifyEntered: "reachable v verifyEntered"
  using reachable.start run_enterVerify by (rule run_reachable)

lemma reachable_countedDown: "reachable v countedDown"
  using reachable_verifyEntered run_countedDown by (rule run_reachable)

lemma reachable_codeEntered: "reachable v codeEntered"
  using reachable_verifyEntered run_typeCode by (rule run_reachable)

section \<open>Entering the verify screen: the claims\<close>

text \<open>
  Claim C1, as amended. When "continue" fires with salutation, first name, surname and
  phone non-empty and the phone valid, the screen becomes \<open>verify\<close> and the code, the
  countdown and the resend flag are left as they are. No action taken off the \<open>verify\<close>
  screen changes them either, so that they are six empty slots, 60 and false on the
  first visit of \<open>verify\<close>, and what the previous visit left on a later one.
\<close>

theorem handleVerification_enters_verify_keeping_code:
  "(canContinue s \<longrightarrow>
      currentScreen (handleVerification s) = Verify \<and>
      verificationCode (handleVerification s) = verificationCode s \<and>
      countdown (handleVerification s) = countdown s \<and>
      canResend (handleVerification s) = canResend s) \<and>
   (runOffVerify v as s0 = Some s \<longrightarrow>
      verificationCode s = verificationCode s0 \<and>
      countdown s = countdown s0 \<and>
      canResend s = canResend s0) \<and>
   (runOffVerify v as initialState = Some s \<and> canContinue s \<longrightarrow>
      verificationCode (handleVerification s) = ['''', '''', '''', '''', '''', ''''] \<and>
      countdown (handleVerification s) = 60 \<and>
      canResend (handleVerification s) = False)"
proof -
  have keep: "handleVerification s = s\<lparr>currentScreen := Verify\<rparr>" if "canContinue s"
    using that by (simp add: handleVerification_def canContinue_def)
  have frame: "verificationCode s = verificationCode s0 \<and> countdown s = countdown s0 \<and>
      canResend s = canResend s0" if "runOffVerify v as s0 = Some s" for s0
    using that by (rule runOffVerify_keeps)
  have first: "verificationCode s = ['''', '''', '''', '''', '''', ''''] \<and> countdown s = 60 \<and>
      canResend s = False" if "runOffVerify v as initialState = Some s"
    using frame [OF that] by (simp add: initialState_def)
  from keep frame first show ?thesis by auto
qed

theorem handleVerification_enters_verify_keeping_code_witness:
  "runOffVerify PartA fillForm initialState = Some formFilled \<and> canContinue formFilled \<and>
   currentScreen (handleVerification formFilled) = Verify \<and>
   verificationCode formFilled = verificationCode initialState \<and>
   countdown formFilled = countdown initialState \<and>
   canResend formFilled = canResend initialState \<and>
   verificationCode (handleVerification formFilled) = ['''', '''', '''', '''', '''', ''''] \<and>
   countdown (handleVerification formFilled) = 60 \<and>
   canResend (handleVerification formFilled) = False"
  using handleVerification_enters_verify_keeping_code [of formFilled PartA fillForm initialState]
    run_fillForm [of PartA] canContinue_formFilled
  by blast

text \<open>
  Claim C1 as the specification states it fails: in the run \<open>revisitVerify\<close> the user
  enters \<open>verify\<close>, types a digit, waits a second, goes back to the form and continues
  again; the second visit starts with the digit still in the first slot and with 59
  seconds left, in both versions of the component.
\<close>

theorem reentering_verify_keeps_old_code_and_countdown:
  "map_option currentScreen (run PartA revisitVerify initialState) = Some Verify \<and>
   map_option verificationCode (run PartA revisitVerify initialState) =
     Some [''1'', '''', '''', '''', '''', ''''] \<and>
   map_option countdown (run PartA revisitVerify initialState) = Some 59 \<and>
   map_option currentScreen (run AppTsx revisitVerify initialState) = Some Verify \<and>
   map_option verificationCode (run AppTsx revisitVerify initialState) =
     Some [''1'', '''', '''', '''', '''', ''''] \<and>
   map_option countdown (run AppTsx revisitVerify initialState) = Some 59"
  by (simp add: revisitVerify_def fillForm_def initialState_def emptyProfile_def
      handleProfileChange_def setField_def continueWithEmail_def handlePhoneChange_def
      handleVerification_def handleOTPChange_def setSlot_def tickUpdater_def timerActive_def
      formatPhoneNumber_def validateUAEPhone_def stripNonDigits_def isDigit_def slice_def
      sliceFrom_def startsWith_def Let_def)

section \<open>Submitting the code: the claims\<close>

text \<open>
  Claim C6. Submitting a code whose slots join to fewer than six characters sets the
  length error and neither changes the screen nor schedules a completion. Submitting a
  code of exactly six characters sets no error and schedules the completion, which
  ends on the \<open>success\<close> screen whatever happened during the delay; in a reachable state
  no error is displayed then.
\<close>

theorem handleVerify_checks_code_length:
  "(length (joinWith '''' (verificationCode s)) < 6 \<longrightarrow>
      verificationError (handleVerify s) = ''Please enter a valid 6-digit code'' \<and>
      currentScreen (handleVerify s) = currentScreen s \<and>
      pendingVerify (handleVerify s) = pendingVerify s) \<and>
   (length (joinWith '''' (verificationCode s)) = 6 \<longrightarrow>
      verificationError (handleVerify s) = verificationError s \<and>
      currentScreen (handleVerify s) = currentScreen s \<and>
      pendingVerify (handleVerify s) = pendingVerify s + 1 \<and>
      currentScreen (handleVerifyResume (handleVerify s)) = Success \<and>
      verificationError (handleVerifyResume (handleVerify s)) = verificationError s) \<and>
   (reachable v s \<and> length (joinWith '''' (verificationCode s)) = 6 \<longrightarrow>
      verificationError (handleVerifyResume (handleVerify s)) = '''') \<and>
   currentScreen (handleVerifyResume t) = Success \<and>
   verificationError (handleVerifyResume t) = verificationError t"
proof -
  have "verificationError s = ''''"
    if "reachable v s" and "length (joinWith '''' (verificationCode s)) = 6"
    using reachable_errorInv [OF that(1)] that(2) by (simp add: errorInv_def)
  then show ?thesis
    by (auto simp add: handleVerify_def handleVerifyResume_def Let_def)
qed

theorem handleVerify_checks_code_length_witness:
  "length (joinWith '''' (verificationCode verifyEntered)) < 6 \<and>
   verificationError (handleVerify verifyEntered) = ''Please enter a valid 6-digit code'' \<and>
   currentScreen (handleVerify verifyEntered) = Verify \<and>
   reachable PartA codeEntered \<and>
   length (joinWith '''' (verificationCode codeEntered)) = 6 \<and>
   verificationError (handleVerify codeEntered) = '''' \<and>
   currentScreen (handleVerifyResume (handleVerify codeEntered)) = Success \<and>
   verificationError (handleVerifyResume (handleVerify codeEntered)) = ''''"
proof -
  have a: "length (joinWith '''' (verificationCode verifyEntered)) < 6"
    by (simp add: verifyEntered_def formFilled_def initialState_def)
  have b: "length (joinWith '''' (verificationCode codeEntered)) = 6"
    by (simp add: codeEntered_def)
  have c: "currentScreen verifyEntered = Verify" "verificationError codeEntered = ''''"
    by (simp_all add: codeEntered_def verifyEntered_def formFilled_def initialState_def)
  show ?thesis
    using handleVerify_checks_code_length [of verifyEntered PartA]
      handleVerify_checks_code_length [of codeEntered PartA]
      reachable_codeEntered [of PartA] a b c
    by simp
qed

section \<open>The countdown: the claims\<close>

text \<open>
  Claim C7. In every reachable state the countdown is not negative, and resend is
  allowed exactly when the countdown is 0. On the \<open>verify\<close> screen with a positive
  countdown one second takes exactly 1 off it, and resend is allowed afterwards exactly
  when that reached 0; at 0, and on any other screen, a second changes nothing.
\<close>

theorem countdown_decrements_to_zero:
  "reachable v s \<Longrightarrow>
     0 \<le> countdown s \<and>
     (canResend s = (countdown s = 0)) \<and>
     (currentScreen s = Verify \<and> countdown s > 0 \<longrightarrow>
        countdown (tick s) = countdown s - 1 \<and>
        canResend (tick s) = (countdown (tick s) = 0)) \<and>
     (countdown s = 0 \<longrightarrow> tick s = s) \<and>
     (currentScreen s \<noteq> Verify \<longrightarrow> tick s = s)"
proof -
  assume "reachable v s"
  then have "countdownInv s" by (rule reachable_countdownInv)
  then show ?thesis
    by (auto simp add: countdownInv_def tick_def timerActive_def tickUpdater_def)
qed

theorem countdown_decrements_to_zero_witness:
  "reachable PartA verifyEntered \<and> currentScreen verifyEntered = Verify \<and>
   countdown verifyEntered = 60 \<and> \<not> canResend verifyEntered \<and>
   countdown (tick verifyEntered) = 59 \<and> \<not> canResend (tick verifyEntered) \<and>
   reachable PartA countedDown \<and> countdown countedDown = 0 \<and> canResend countedDown \<and>
   tick countedDown = countedDown"
proof -
  have v: "currentScreen verifyEntered = Verify" "countdown verifyEntered = 60"
    by (simp_all add: verifyEntered_def formFilled_def initialState_def)
  have c: "countdown countedDown = 0"
    by (simp add: countedDown_def)
  show ?thesis
    using countdown_decrements_to_zero [OF reachable_verifyEntered [of PartA]]
      countdown_decrements_to_zero [OF reachable_countedDown [of PartA]]
      reachable_verifyEntered [of PartA] reachable_countedDown [of PartA] v c
    by simp
qed

section \<open>Favourite designers: the claims\<close>

subsection \<open>Splitting, joining and trimming\<close>

lemma splitComma_not_Nil: "splitComma s \<noteq> []"
  by (induction s) (auto split: list.splits)

lemma splitComma_no_comma: "p \<in> set (splitComma s) \<Longrightarrow> CHR '','' \<notin> set p"
proof (induction s arbitrary: p)
  case Nil
  then show ?case by simp
next
  case (Cons c cs)
  show ?case
  proof (cases "c = CHR '',''")
    case True
    with Cons show ?thesis by auto
  next
    case False
    obtain w ws where sp: "splitComma cs = w # ws"
      using splitComma_not_Nil [of cs] by (cases "splitComma cs") auto
    with False Cons.prems have "p = c # w \<or> p \<in> set ws" by simp
    then show ?thesis
    proof
      assume "p = c # w"
      moreover have "CHR '','' \<notin> set w" using Cons.IH [of w] sp by simp
      ultimately show ?thesis using False by auto
    next
      assume "p \<in> set ws"
      then show ?thesis using Cons.IH [of p] sp by simp
    qed
  qed
qed

text \<open>The pieces of a string, joined with commas again, are the string.\<close>

lemma joinWith_splitComma: "joinWith '','' (splitComma s) = s"
proof (induction s)
  case Nil
  then show ?case by simp
next
  case (Cons c cs)
  obtain w ws where sp: "splitComma cs = w # ws"
    using splitComma_not_Nil [of cs] by (cases "splitComma cs") auto
  show ?case
  proof (cases "c = CHR '',''")
    case True
    with Cons sp show ?thesis by simp
  next
    case False
    with Cons sp show ?thesis by (cases ws) simp_all
  qed
qed

lemma splitComma_no_comma_id: "CHR '','' \<notin> set x \<Longrightarrow> splitComma x = [x]"
  by (induction x) auto

lemma splitComma_append_comma:
  "CHR '','' \<notin> set x \<Longrightarrow> splitComma (x @ CHR '','' # r) = x # splitComma r"
  by (induction x) auto

lemma trim_space_Cons: "isSpace c \<Longrightarrow> trim (c # w) = trim w"
  by (simp add: trim_def)

lemma set_trim_subset: "set (trim s) \<subseteq> set s"
proof -
  have "set (trim s) = set (dropWhile isSpace (rev (dropWhile isSpace s)))"
    by (simp add: trim_def)
  also have "\<dots> \<subseteq> set (rev (dropWhile isSpace s))" by (rule set_dropWhileD [THEN subsetI])
  also have "\<dots> \<subseteq> set s" using set_dropWhileD [of _ isSpace s] by auto
  finally show ?thesis .
qed

lemma trim_split_space:
  "map trim (splitComma (CHR '' '' # r)) = map trim (splitComma r)"
proof -
  obtain w ws where sp: "splitComma r = w # ws"
    using splitComma_not_Nil [of r] by (cases "splitComma r") auto
  have "isSpace CHR '' ''" by (simp add: isSpace_def)
  then show ?thesis using sp by (simp add: trim_space_Cons)
qed

lemma trim_split_join:
  "xs \<noteq> [] \<Longrightarrow> (\<And>x. x \<in> set xs \<Longrightarrow> CHR '','' \<notin> set x) \<Longrightarrow>
   map trim (splitComma (joinWith '', '' xs)) = map trim xs"
proof (induction "'', ''" xs rule: joinWith.induct)
  case 1
  then show ?case by simp
next
  case (2 x)
  then show ?case by (simp add: splitComma_no_comma_id)
next
  case (3 x y ys)
  let ?J = "joinWith '', '' (y # ys)"
  have x: "CHR '','' \<notin> set x" using 3(3) by simp
  have IH: "map trim (splitComma ?J) = map trim (y # ys)"
    using 3(1) 3(3) by simp
  have "splitComma (joinWith '', '' (x # y # ys)) = x # splitComma (CHR '' '' # ?J)"
    using splitComma_append_comma [OF x, of "CHR '' '' # ?J"]
    by (simp del: splitComma.simps)
  then have "map trim (splitComma (joinWith '', '' (x # y # ys))) =
      trim x # map trim (splitComma (CHR '' '' # ?J))"
    by (simp del: splitComma.simps)
  also have "\<dots> = trim x # map trim (splitComma ?J)"
    by (simp only: trim_split_space)
  also have "\<dots> = map trim (x # y # ys)"
    using IH by simp
  finally show ?case .
qed

lemma joinWith_snoc: "xs \<noteq> [] \<Longrightarrow> joinWith sep (xs @ [b]) = joinWith sep xs @ sep @ b"
  by (induction sep xs rule: joinWith.induct) simp_all

lemma joinWith_snoc_not_Nil: "b \<noteq> [] \<Longrightarrow> joinWith '', '' (xs @ [b]) \<noteq> []"
  by (induction "'', ''" xs rule: joinWith.induct) auto

subsection \<open>Selecting a brand\<close>

lemma getSelectedBrands_no_comma: "x \<in> set (getSelectedBrands s) \<Longrightarrow> CHR '','' \<notin> set x"
  using splitComma_no_comma set_trim_subset
  by (fastforce simp add: getSelectedBrands_def split: if_splits)

lemma getSelectedBrands_favoriteDesigners:
  "getSelectedBrands (s\<lparr>profile := (profile s)\<lparr>favoriteDesigners := fd\<rparr>\<rparr>) =
     (if fd \<noteq> [] then map trim (splitComma fd) else [])"
  by (simp add: getSelectedBrands_def)

lemma getSelectedBrands_Nil_iff: "getSelectedBrands s = [] \<longleftrightarrow> favoriteDesigners (profile s) = []"
  using splitComma_not_Nil by (simp add: getSelectedBrands_def)

lemma getSelectedBrands_showBrandSuggestions:
  "getSelectedBrands (s\<lparr>showBrandSuggestions := x\<rparr>) = getSelectedBrands s"
  by (simp add: getSelectedBrands_def)

lemma selectBrand_member:
  "b \<in> set (getSelectedBrands s) \<Longrightarrow> selectBrand b s = s\<lparr>showBrandSuggestions := False\<rparr>"
  by (simp add: selectBrand_def Let_def)

lemma selectBrand_not_member:
  "b \<notin> set (getSelectedBrands s) \<Longrightarrow>
   selectBrand b s =
     s\<lparr>profile := (profile s)\<lparr>favoriteDesigners := joinWith '', '' (getSelectedBrands s @ [b])\<rparr>,
       showBrandSuggestions := False\<rparr>"
  by (simp add: selectBrand_def Let_def handleProfileChange_def setField_def)

text \<open>
  A brand without a comma and without white space around it is found among the selected
  brands once it was appended, so that selecting it a second time changes nothing.
\<close>

lemma selectBrand_twice:
  assumes comma: "CHR '','' \<notin> set b" and tr: "trim b = b"
  shows "selectBrand b (selectBrand b s) = selectBrand b s"
proof (cases "b \<in> set (getSelectedBrands s)")
  case True
  then show ?thesis
    by (simp add: selectBrand_member getSelectedBrands_showBrandSuggestions)
next
  case False
  let ?cur = "getSelectedBrands s"
  let ?fd = "joinWith '', '' (?cur @ [b])"
  let ?s1 = "s\<lparr>profile := (profile s)\<lparr>favoriteDesigners := ?fd\<rparr>\<rparr>"
  have s1: "selectBrand b s = ?s1\<lparr>showBrandSuggestions := False\<rparr>"
    using False by (simp add: selectBrand_not_member)
  show ?thesis
  proof (cases "?fd = []")
    case True
    have "b = []"
    proof (rule ccontr)
      assume "b \<noteq> []"
      then have "?fd \<noteq> []" by (rule joinWith_snoc_not_Nil)
      with True show False by simp
    qed
    have "?cur = []"
    proof (cases ?cur)
      case Nil
      then show ?thesis .
    next
      case (Cons x xs)
      then have "?fd \<noteq> []" by (cases xs) simp_all
      with True show ?thesis by simp
    qed
    then have "favoriteDesigners (profile s) = []" by (simp add: getSelectedBrands_Nil_iff)
    with True have same: "?s1 = s" by simp
    have "getSelectedBrands ?s1 = []"
      using True by (simp add: getSelectedBrands_favoriteDesigners)
    then have "b \<notin> set (getSelectedBrands (?s1\<lparr>showBrandSuggestions := False\<rparr>))"
      by (simp add: getSelectedBrands_showBrandSuggestions)
    then have "selectBrand b (?s1\<lparr>showBrandSuggestions := False\<rparr>) =
        ?s1\<lparr>showBrandSuggestions := False\<rparr>"
      using True \<open>?cur = []\<close> \<open>b = []\<close> same
      by (simp add: selectBrand_not_member getSelectedBrands_showBrandSuggestions
          getSelectedBrands_favoriteDesigners)
    then show ?thesis by (simp add: s1)
  next
    case False
    have nc: "CHR '','' \<notin> set x" if "x \<in> set (?cur @ [b])" for x
      using that comma getSelectedBrands_no_comma [of x s] by auto
    have "map trim (splitComma ?fd) = map trim (?cur @ [b])"
      by (rule trim_split_join) (simp_all add: nc)
    then have "getSelectedBrands ?s1 = map trim (?cur @ [b])"
      using False by (simp add: getSelectedBrands_favoriteDesigners)
    then have "b \<in> set (getSelectedBrands (?s1\<lparr>showBrandSuggestions := False\<rparr>))"
      using tr by (simp add: getSelectedBrands_showBrandSuggestions)
    then have "selectBrand b (?s1\<lparr>showBrandSuggestions := False\<rparr>) =
        ?s1\<lparr>showBrandSuggestions := False\<rparr>"
      by (simp add: selectBrand_member)
    then show ?thesis by (simp add: s1)
  qed
qed

lemma LUXURY_BRANDS_wellformed:
  "b \<in> set LUXURY_BRANDS \<Longrightarrow> CHR '','' \<notin> set b \<and> trim b = b"
  by (auto simp add: LUXURY_BRANDS_def trim_def isSpace_def)

text \<open>
  The two conditions are needed: a string with a comma is split into several brands, is
  not found among them, and is appended again by a second call.
\<close>

lemma selectBrand_with_comma_twice:
  "favoriteDesigners (profile (selectBrand ''a,b'' initialState)) = ''a,b'' \<and>
   favoriteDesigners (profile (selectBrand ''a,b'' (selectBrand ''a,b'' initialState))) =
     ''a, b, a,b''"
  by (simp add: selectBrand_def getSelectedBrands_def handleProfileChange_def setField_def
      initialState_def emptyProfile_def trim_def isSpace_def Let_def)

lemma getSelectedBrands_brandsChosen: "getSelectedBrands brandsChosen = [''Gucci'', ''Prada'']"
  by (simp add: getSelectedBrands_def brandsChosen_def trim_def isSpace_def)

text \<open>
  Claim C9. The selected brands are the pieces of \<open>favoriteDesigners\<close> between commas,
  each trimmed (none for the empty string). In every state, selecting a brand that is
  among them leaves \<open>favoriteDesigners\<close> unchanged, and selecting any other brand sets it
  to the selected brands joined with ", " followed by the new brand. So selecting the
  same brand twice is the same as selecting it once, for every brand of the catalogue
  and for every brand without a comma and without white space around it.
\<close>

theorem selectBrand_appends_unless_selected:
  "getSelectedBrands s =
     (if favoriteDesigners (profile s) = '''' then []
      else map trim (splitComma (favoriteDesigners (profile s)))) \<and>
   (b \<in> set (getSelectedBrands s) \<longrightarrow>
      favoriteDesigners (profile (selectBrand b s)) = favoriteDesigners (profile s)) \<and>
   (b \<notin> set (getSelectedBrands s) \<longrightarrow>
      favoriteDesigners (profile (selectBrand b s)) =
        (if getSelectedBrands s = [] then b
         else joinWith '', '' (getSelectedBrands s) @ '', '' @ b)) \<and>
   (CHR '','' \<notin> set b \<and> trim b = b \<longrightarrow> selectBrand b (selectBrand b s) = selectBrand b s) \<and>
   (b \<in> set LUXURY_BRANDS \<longrightarrow> selectBrand b (selectBrand b s) = selectBrand b s)"
proof -
  have 1: "getSelectedBrands s =
     (if favoriteDesigners (profile s) = '''' then []
      else map trim (splitComma (favoriteDesigners (profile s))))"
    by (simp add: getSelectedBrands_def)
  have 2: "favoriteDesigners (profile (selectBrand b s)) = favoriteDesigners (profile s)"
    if "b \<in> set (getSelectedBrands s)"
    using that by (simp add: selectBrand_member)
  have 3: "favoriteDesigners (profile (selectBrand b s)) =
        (if getSelectedBrands s = [] then b
         else joinWith '', '' (getSelectedBrands s) @ '', '' @ b)"
    if "b \<notin> set (getSelectedBrands s)"
    using that by (simp add: selectBrand_not_member joinWith_snoc)
  have 4: "selectBrand b (selectBrand b s) = selectBrand b s"
    if "CHR '','' \<notin> set b \<and> trim b = b"
    using that by (simp add: selectBrand_twice)
  have 5: "selectBrand b (selectBrand b s) = selectBrand b s" if "b \<in> set LUXURY_BRANDS"
    using LUXURY_BRANDS_wellformed [OF that] by (simp add: selectBrand_twice)
  from 1 2 3 4 5 show ?thesis by blast
qed

theorem selectBrand_appends_unless_selected_witness:
  "getSelectedBrands brandsChosen = [''Gucci'', ''Prada''] \<and>
   favoriteDesigners (profile (selectBrand ''Prada'' brandsChosen)) = ''Gucci, Prada'' \<and>
   favoriteDesigners (profile (selectBrand ''Chanel'' brandsChosen)) = ''Gucci, Prada, Chanel'' \<and>
   selectBrand ''Chanel'' (selectBrand ''Chanel'' brandsChosen) =
     selectBrand ''Chanel'' brandsChosen"
proof -
  have fd: "favoriteDesigners (profile brandsChosen) = ''Gucci, Prada''"
    by (simp add: brandsChosen_def)
  have ch: "''Chanel'' \<in> set LUXURY_BRANDS"
    by (simp add: LUXURY_BRANDS_def)
  show ?thesis
    using selectBrand_appends_unless_selected [of brandsChosen "''Prada''"]
      selectBrand_appends_unless_selected [of brandsChosen "''Chanel''"]
      getSelectedBrands_brandsChosen fd ch
    by simp
qed

end
